theory Spec2Isabelle
  imports Main "HOL-Library.Sublist"
begin

section \<open>Python values used by the notebook reader\<close>

text \<open>
  A Python \<open>str\<close> is modelled as a HOL \<open>string\<close>: a list of characters, each one a code
  point in the range 0..255. The string methods below are the Python ones restricted to
  that range, except \<open>lower()\<close>, which is a parameter. Integers are unbounded (\<open>int\<close>),
  as in Python.
\<close>

text \<open>Exceptions are values. \<open>ValueError\<close> carries the literal \<open>int()\<close> rejected,
  \<open>Raised\<close> stands for whatever \<open>nbformat.read\<close> raised, identified by a description.\<close>

datatype exn = ValueError string | IndexError | Raised string

text \<open>The argument of \<open>normalize_text\<close>: \<open>None\<close>, one string, or a list of strings.\<close>

datatype text_val = PyNone | PyStr string | PyList "string list"

text \<open>\<open>sep.join(xs)\<close>\<close>

fun py_join :: "string \<Rightarrow> string list \<Rightarrow> string" where
  "py_join sep [] = []"
| "py_join sep [x] = x"
| "py_join sep (x # y # ys) = x @ sep @ py_join sep (y # ys)"

text \<open>\<open>str.isspace\<close> on one character, for the code points below 256.\<close>

definition is_space :: "char \<Rightarrow> bool" where
  "is_space c = (c \<in> set [CHR 0x09, CHR 0x0A, CHR 0x0B, CHR 0x0C, CHR 0x0D, CHR 0x1C,
                            CHR 0x1D, CHR 0x1E, CHR 0x1F, CHR 0x20, CHR 0x85, CHR 0xA0])"

text \<open>\<open>s.strip()\<close>\<close>

definition py_strip :: "string \<Rightarrow> string" where
  "py_strip s = rev (dropWhile is_space (rev (dropWhile is_space s)))"

text \<open>
  \<open>s.lower()\<close> is a parameter of the model, called \<open>lower\<close> in the filters below: the case
  tables of Python are not part of the program, and lower-casing a string is neither
  character by character nor length-preserving in general (a final sigma, U+0130). Nothing
  is assumed about it. On a string whose code points are all below 256 its value is
  \<open>lower_latin1\<close>: A..Z and the upper-case letters of Latin-1 move up by 32. The examples
  on such strings use it.
\<close>

definition lower_char :: "char \<Rightarrow> char" where
  "lower_char c =
     (let n = (of_char c :: nat) in
      if (65 \<le> n \<and> n \<le> 90) \<or> (192 \<le> n \<and> n \<le> 222 \<and> n \<noteq> 215)
      then char_of (n + 32) else c)"

definition lower_latin1 :: "string \<Rightarrow> string" where
  "lower_latin1 s = map lower_char s"

text \<open>\<open>k in text\<close> for two strings: \<open>k\<close> starts at some position of \<open>text\<close>. It reads no
  particular character, so it is stated for any type of code points.\<close>

fun py_contains :: "'c list \<Rightarrow> 'c list \<Rightarrow> bool" where
  "py_contains k [] = (k = [])"
| "py_contains k (c # cs) = (prefix k (c # cs) \<or> py_contains k cs)"

text \<open>
  \<open>s.split(sep)\<close> and \<open>s.split(sep, maxsplit)\<close>: scan from the left, cut at each occurrence
  of \<open>sep\<close>, at most \<open>maxsplit\<close> times. \<open>cur\<close> holds the current piece, reversed. Python
  raises on an empty separator; every call of the source passes a non-empty literal, and
  with an empty one this function never cuts.
\<close>

function py_split_from :: "string \<Rightarrow> nat option \<Rightarrow> string \<Rightarrow> string \<Rightarrow> string list" where
  "py_split_from sep maxsplit cur s =
     (if maxsplit = Some 0 then [rev cur @ s]
      else case s of
        [] \<Rightarrow> [rev cur]
      | c # cs \<Rightarrow>
          if sep \<noteq> [] \<and> prefix sep s
          then rev cur #
               py_split_from sep (map_option (\<lambda>k. k - 1) maxsplit) [] (drop (length sep) s)
          else py_split_from sep maxsplit (c # cur) cs)"
  by pat_completeness auto
termination
  by (relation "measure (\<lambda>(sep, m, cur, s). length s)") auto

declare py_split_from.simps [simp del]

definition py_split :: "string \<Rightarrow> string \<Rightarrow> string list" where
  "py_split s sep = py_split_from sep None [] s"

definition py_split_max :: "string \<Rightarrow> string \<Rightarrow> nat \<Rightarrow> string list" where
  "py_split_max s sep maxsplit = py_split_from sep (Some maxsplit) [] s"

text \<open>\<open>s.splitlines()\<close>: the line boundaries below 256; \<open>\r\n\<close> counts once; no empty
  last line.\<close>

definition is_linebreak :: "char \<Rightarrow> bool" where
  "is_linebreak c =
     (c \<in> set [CHR 0x0A, CHR 0x0B, CHR 0x0C, CHR 0x0D, CHR 0x1C, CHR 0x1D, CHR 0x1E, CHR 0x85])"

function splitlines_from :: "string \<Rightarrow> string \<Rightarrow> string list" where
  "splitlines_from cur [] = (if cur = [] then [] else [rev cur])"
| "splitlines_from cur (c # cs) =
     (if is_linebreak c
      then rev cur #
           splitlines_from [] (if c = CHR 0x0D \<and> prefix [CHR 0x0A] cs then tl cs else cs)
      else splitlines_from (c # cur) cs)"
  by pat_completeness auto
termination
  by (relation "measure (\<lambda>(cur, s). length s)") auto

definition splitlines :: "string \<Rightarrow> string list" where
  "splitlines s = splitlines_from [] s"

text \<open>\<open>xs[i]\<close> for an index that is not negative.\<close>

definition py_index :: "'a list \<Rightarrow> nat \<Rightarrow> exn + 'a" where
  "py_index xs i = (if i < length xs then Inr (xs ! i) else Inl IndexError)"

text \<open>\<open>str(n)\<close> for an integer, and the f-string rendering of \<open>None\<close> and of a boolean.\<close>

fun str_nat :: "nat \<Rightarrow> string" where
  "str_nat n =
     (if n < 10 then [''0123456789'' ! n]
      else str_nat (n div 10) @ [''0123456789'' ! (n mod 10)])"

declare str_nat.simps [simp del]

definition str_int :: "int \<Rightarrow> string" where
  "str_int i = (if i < 0 then ''-'' @ str_nat (nat (- i)) else str_nat (nat i))"

definition str_opt_int :: "int option \<Rightarrow> string" where
  "str_opt_int x = (case x of None \<Rightarrow> ''None'' | Some i \<Rightarrow> str_int i)"

definition str_bool :: "bool \<Rightarrow> string" where
  "str_bool b = (if b then ''True'' else ''False'')"

text \<open>
  \<open>int(s)\<close> in base 10. The interpreter drops the whitespace around the literal (the
  characters for which C's \<open>isspace\<close> holds, and the non-ASCII spaces, which it first turns
  into blanks), allows one sign, and then wants decimal digits, with single underscores
  between digits. It also refuses, by default, a literal of more than 4300 digits
  (\<open>sys.int_info.default_max_str_digits\<close>; underscores are not counted). Every refusal is
  a \<open>ValueError\<close>.
\<close>

definition is_int_space :: "char \<Rightarrow> bool" where
  "is_int_space c =
     (c \<in> set [CHR 0x09, CHR 0x0A, CHR 0x0B, CHR 0x0C, CHR 0x0D, CHR 0x20, CHR 0x85, CHR 0xA0])"

definition int_strip :: "string \<Rightarrow> string" where
  "int_strip s = rev (dropWhile is_int_space (rev (dropWhile is_int_space s)))"

definition is_digit :: "char \<Rightarrow> bool" where
  "is_digit c = (c \<in> set ''0123456789'')"

fun valid_digits :: "string \<Rightarrow> bool" where
  "valid_digits [] = False"
| "valid_digits [c] = is_digit c"
| "valid_digits (c # d # cs) =
     (is_digit c \<and> (if d = CHR ''_'' then valid_digits cs else valid_digits (d # cs)))"

definition digit_val :: "char \<Rightarrow> nat" where
  "digit_val c = (of_char c :: nat) - 48"

definition digits_val :: "string \<Rightarrow> nat" where
  "digits_val ds = foldl (\<lambda>a c. 10 * a + digit_val c) 0 (filter (\<lambda>c. c \<noteq> CHR ''_'') ds)"

definition int_max_str_digits :: nat where
  "int_max_str_digits = 4300"

definition py_int :: "string \<Rightarrow> exn + int" where
  "py_int s =
     (let t = int_strip s;
          (neg, ds) = (case t of
                         c # cs \<Rightarrow> if c = CHR ''-'' then (True, cs)
                                   else if c = CHR ''+'' then (False, cs) else (False, t)
                       | [] \<Rightarrow> (False, t))
      in if valid_digits ds \<and>
            length (filter (\<lambda>c. c \<noteq> CHR ''_'') ds) \<le> int_max_str_digits
         then Inr (if neg then - int (digits_val ds) else int (digits_val ds))
         else Inl (ValueError s))"

section \<open>Utilities\<close>

text \<open>
  \<open>normalize_text(x)\<close>: a list is joined with the empty separator; otherwise \<open>x or ""\<close>,
  which is \<open>""\<close> for \<open>None\<close> and for the empty string.
\<close>

fun normalize_text :: "text_val \<Rightarrow> string" where
  "normalize_text (PyList x) = py_join '''' x"
| "normalize_text PyNone = ''''"
| "normalize_text (PyStr x) = (if x \<noteq> [] then x else '''')"

text \<open>
  An output record of a code cell. \<open>output_type\<close> selects which fields the code reads:
  \<open>text_field\<close> (\<open>out.text\<close>) for a stream, \<open>data\<close> for a result or display (\<open>None\<close> or a
  dictionary from MIME type to the value's \<open>str\<close> form), and \<open>ename\<close>, \<open>evalue\<close>,
  \<open>traceback\<close> for an error.
\<close>

record output_node =
  output_type :: string
  text_field :: text_val
  data :: "(string \<rightharpoonup> string) option"
  ename :: string
  evalue :: string
  traceback :: "string list"

text \<open>One pass of the loop of \<open>format_outputs\<close> over the state \<open>(lines, has_error)\<close>.\<close>

fun format_outputs_step :: "string list \<times> bool \<Rightarrow> output_node \<Rightarrow> string list \<times> bool" where
  "format_outputs_step (lines, has_error) out =
     (let otype = output_type out in
      if otype = ''stream'' then
        (let text = py_strip (normalize_text (text_field out)) in
         if text \<noteq> [] then (lines @ [text], has_error) else (lines, has_error))
      else if otype \<in> set [''execute_result'', ''display_data''] then
        (let d = (case data out of None \<Rightarrow> Map.empty | Some m \<Rightarrow> m) in
         case d ''text/plain'' of
           Some v \<Rightarrow> (lines @ [py_strip v], has_error)
         | None \<Rightarrow> (lines, has_error))
      else if otype = ''error'' then
        ((lines @ [''ERROR:''] @ [ename out @ '': '' @ evalue out]) @ traceback out, True)
      else (lines, has_error))"

declare format_outputs_step.simps [simp del]

definition format_outputs :: "output_node list \<Rightarrow> string \<times> bool" where
  "format_outputs outs =
     (let (lines, has_error) = foldl format_outputs_step ([], False) outs
      in (py_join ''\<newline>'' lines, has_error))"

text \<open>A cell of the notebook; \<open>execution_count\<close> and \<open>outputs\<close> are read for code cells only.\<close>

record cell =
  cell_type :: string
  source :: text_val
  execution_count :: "int option"
  outputs :: "output_node list"

definition format_cell :: "cell \<Rightarrow> int \<Rightarrow> string" where
  "format_cell c index =
     (let src = py_strip (normalize_text (source c)) in
      if cell_type c = ''markdown'' then
        ''\<newline>[CELL '' @ str_int index @ '' | MARKDOWN]\<newline>'' @ src @ ''\<newline>''
      else if cell_type c = ''code'' then
        (let (output_text, has_error) = format_outputs (outputs c);
             ec = execution_count c
         in ''\<newline>[CELL '' @ str_int index @ '' | CODE]\<newline>'' @
            ''[EXECUTION_COUNT] '' @ str_opt_int ec @ ''\<newline>'' @
            ''[HAS_ERROR] '' @ str_bool has_error @ ''\<newline>\<newline>'' @
            src @ ''\<newline>\<newline>'' @
            ''[OUTPUT]\<newline>'' @
            (if output_text \<noteq> [] then output_text else ''<NO OUTPUT>'') @ ''\<newline>'')
      else '''')"

text \<open>The lines a list of outputs contributes, used to state what one record adds.\<close>

definition rendered_lines :: "output_node list \<Rightarrow> string list" where
  "rendered_lines outs = fst (foldl format_outputs_step ([], False) outs)"

section \<open>Notebook parsing\<close>

text \<open>
  \<open>nbformat.read\<close> is a parameter: for a path it raises, or it gives the cells of the
  notebook. The loop of \<open>notebook_to_llm_blocks\<close> runs over \<open>enumerate(nb.cells)\<close> and
  appends every block that is not blank.
\<close>

fun blocks_loop :: "(nat \<times> cell) list \<Rightarrow> string list \<Rightarrow> string list" where
  "blocks_loop [] blocks = blocks"
| "blocks_loop ((i, c) # rest) blocks =
     (let block = format_cell c (int i) in
      if py_strip block \<noteq> [] then blocks_loop rest (blocks @ [block])
      else blocks_loop rest blocks)"

definition notebook_to_llm_blocks ::
  "(string \<Rightarrow> exn + cell list) \<Rightarrow> string \<Rightarrow> exn + string list" where
  "notebook_to_llm_blocks nbformat_read notebook_path =
     (case nbformat_read notebook_path of
        Inl e \<Rightarrow> Inl e
      | Inr cells \<Rightarrow> Inr (blocks_loop (enumerate 0 cells) []))"

section \<open>Filters\<close>

text \<open>
  The \<open>keywords\<close> argument of \<open>filter_by_keyword\<close>: one string or a list of strings. The
  filter calls only \<open>lower()\<close> and \<open>in\<close> on the blocks and keywords, so it is modelled for
  strings over any type \<open>'c\<close> of code points; the first argument is \<open>str.lower\<close>.
\<close>

datatype 'c keyword_arg = KwStr "'c list" | KwList "'c list list"

fun filter_by_keyword_loop ::
  "('c list \<Rightarrow> 'c list) \<Rightarrow> 'c list list \<Rightarrow> 'c list list \<Rightarrow> 'c list list \<Rightarrow> 'c list list" where
  "filter_by_keyword_loop lower [] kws result = result"
| "filter_by_keyword_loop lower (block # rest) kws result =
     (let text = lower block in
      if list_ex (\<lambda>k. py_contains (lower k) text) kws
      then filter_by_keyword_loop lower rest kws (result @ [block])
      else filter_by_keyword_loop lower rest kws result)"

definition filter_by_keyword ::
  "('c list \<Rightarrow> 'c list) \<Rightarrow> 'c list list \<Rightarrow> 'c keyword_arg \<Rightarrow> 'c list list" where
  "filter_by_keyword lower blocks keywords =
     (let kws = (case keywords of KwStr k \<Rightarrow> [k] | KwList ks \<Rightarrow> ks)
      in filter_by_keyword_loop lower blocks kws [])"

text \<open>\<open>int(header.split("[CELL")[1].split("|")[0].strip())\<close>\<close>

definition header_index :: "string \<Rightarrow> exn + int" where
  "header_index header =
     (case py_index (py_split header ''[CELL'') 1 of
        Inl e \<Rightarrow> Inl e
      | Inr a \<Rightarrow>
          (case py_index (py_split a ''|'') 0 of
             Inl e \<Rightarrow> Inl e
           | Inr b \<Rightarrow> py_int (py_strip b)))"

fun filter_by_cell_index_loop ::
  "string list \<Rightarrow> int option \<Rightarrow> int option \<Rightarrow> string list \<Rightarrow> exn + string list" where
  "filter_by_cell_index_loop [] start end' result = Inr result"
| "filter_by_cell_index_loop (block # rest) start end' result =
     (case py_index (py_split_max block ''\<newline>'' 1) 0 of
        Inl e \<Rightarrow> Inl e
      | Inr header \<Rightarrow>
          if \<not> prefix ''[CELL'' header
          then filter_by_cell_index_loop rest start end' result
          else
            (case header_index header of
               Inl e \<Rightarrow> Inl e
             | Inr idx \<Rightarrow>
                 if start \<noteq> None \<and> idx < the start
                 then filter_by_cell_index_loop rest start end' result
                 else if end' \<noteq> None \<and> idx \<ge> the end'
                 then filter_by_cell_index_loop rest start end' result
                 else filter_by_cell_index_loop rest start end' (result @ [block])))"

definition filter_by_cell_index ::
  "string list \<Rightarrow> int option \<Rightarrow> int option \<Rightarrow> exn + string list" where
  "filter_by_cell_index blocks start end' = filter_by_cell_index_loop blocks start end' []"

text \<open>
  The inner loop of \<open>filter_has_error\<close> over the lines of one block: it stops at the first
  line that starts with the tag, and says whether the block is appended. The first
  argument of the filter is \<open>str.lower\<close>.
\<close>

fun has_error_scan :: "(string \<Rightarrow> string) \<Rightarrow> string list \<Rightarrow> bool \<Rightarrow> exn + bool" where
  "has_error_scan lower [] has_error = Inr False"
| "has_error_scan lower (line # rest) has_error =
     (if prefix ''[HAS_ERROR]'' line then
        (case py_index (py_split_max line '']'' 1) 1 of
           Inl e \<Rightarrow> Inl e
         | Inr v \<Rightarrow>
             (let flag = (lower (py_strip v) = ''true'') in Inr (flag = has_error)))
      else has_error_scan lower rest has_error)"

fun filter_has_error_loop ::
  "(string \<Rightarrow> string) \<Rightarrow> string list \<Rightarrow> bool \<Rightarrow> string list \<Rightarrow> exn + string list" where
  "filter_has_error_loop lower [] has_error result = Inr result"
| "filter_has_error_loop lower (block # rest) has_error result =
     (case has_error_scan lower (splitlines block) has_error of
        Inl e \<Rightarrow> Inl e
      | Inr keep \<Rightarrow>
          filter_has_error_loop lower rest has_error
            (if keep then result @ [block] else result))"

definition filter_has_error ::
  "(string \<Rightarrow> string) \<Rightarrow> string list \<Rightarrow> bool \<Rightarrow> exn + string list" where
  "filter_has_error lower blocks has_error = filter_has_error_loop lower blocks has_error []"

section \<open>The tool\<close>

text \<open>\<open>if keywords:\<close> holds for a non-empty string and for a non-empty list.\<close>

definition truthy :: "char keyword_arg option \<Rightarrow> bool" where
  "truthy k = (case k of None \<Rightarrow> False | Some (KwStr s) \<Rightarrow> s \<noteq> [] | Some (KwList ks) \<Rightarrow> ks \<noteq> [])"

text \<open>The statements of the \<open>try\<close> block of \<open>read_notebook\<close> that compute \<open>blocks\<close>.\<close>

definition read_notebook_blocks ::
  "(string \<Rightarrow> string) \<Rightarrow> (string \<Rightarrow> exn + cell list) \<Rightarrow> string \<Rightarrow> char keyword_arg option \<Rightarrow>
   int option \<Rightarrow> int option \<Rightarrow> bool option \<Rightarrow> exn + string list" where
  "read_notebook_blocks lower nbformat_read path keywords start_cell end_cell only_errors =
     (case notebook_to_llm_blocks nbformat_read path of
        Inl e \<Rightarrow> Inl e
      | Inr blocks \<Rightarrow>
          (let blocks1 = (if truthy keywords then filter_by_keyword lower blocks (the keywords)
                          else blocks)
           in case (if start_cell \<noteq> None \<or> end_cell \<noteq> None
                    then filter_by_cell_index blocks1 start_cell end_cell
                    else Inr blocks1) of
                Inl e \<Rightarrow> Inl e
              | Inr blocks2 \<Rightarrow>
                  (case only_errors of
                     None \<Rightarrow> Inr blocks2
                   | Some t \<Rightarrow> filter_has_error lower blocks2 t)))"

text \<open>
  \<open>read_notebook\<close>: the \<open>try\<close> block ends with the two \<open>return\<close>s, the handler turns any
  exception \<open>e\<close> into a string. \<open>lower\<close> is \<open>str.lower\<close> and \<open>str_exc\<close> is Python's \<open>str(e)\<close>.
  The result is typed as any Python call is: an exception or a value.
\<close>

definition read_notebook ::
  "(string \<Rightarrow> string) \<Rightarrow> (exn \<Rightarrow> string) \<Rightarrow> (string \<Rightarrow> exn + cell list) \<Rightarrow> string \<Rightarrow>
   char keyword_arg option \<Rightarrow> int option \<Rightarrow> int option \<Rightarrow> bool option \<Rightarrow> exn + string" where
  "read_notebook lower str_exc nbformat_read path keywords start_cell end_cell only_errors =
     (case (case read_notebook_blocks lower nbformat_read path keywords start_cell end_cell
                  only_errors of
              Inl e \<Rightarrow> Inl e
            | Inr blocks \<Rightarrow>
                if blocks = [] then Inr ''No matching cells found with the specified filters.''
                else Inr (py_join ''\<newline>'' blocks)) of
        Inl e \<Rightarrow> Inr (''Error reading notebook: '' @ str_exc e)
      | Inr s \<Rightarrow> Inr s)"

section \<open>Notions used in the statements\<close>

text \<open>The first line of a block: the text before its first newline (all of it if there
  is none).\<close>

definition first_line :: "string \<Rightarrow> string" where
  "first_line block = takeWhile (\<lambda>x. x \<noteq> CHR 0x0A) block"

text \<open>
  What \<open>filter_by_cell_index\<close> does with one block: an exception, or whether the block is
  kept. Stated with \<open>first_line\<close>; the lemma \<open>filter_by_cell_index_loop_Cons\<close> shows that the
  loop takes exactly this step.
\<close>

definition index_verdict :: "string \<Rightarrow> int option \<Rightarrow> int option \<Rightarrow> exn + bool" where
  "index_verdict block start end' =
     (if prefix ''[CELL'' (first_line block) then
        (case header_index (first_line block) of
           Inl e \<Rightarrow> Inl e
         | Inr idx \<Rightarrow>
             Inr ((case start of None \<Rightarrow> True | Some a \<Rightarrow> a \<le> idx) \<and>
                  (case end' of None \<Rightarrow> True | Some b \<Rightarrow> idx < b)))
      else Inr False)"

text \<open>
  The spec's words for the error filter: the boolean written after the first \<open>]\<close> of a
  line, read without regard to case, and the first line of a block that begins with the
  tag.
\<close>

definition spec_flag :: "(string \<Rightarrow> string) \<Rightarrow> string \<Rightarrow> bool" where
  "spec_flag lower line =
     (lower (py_strip (tl (dropWhile (\<lambda>x. x \<noteq> CHR '']'') line))) = ''true'')"

definition first_tagged_line :: "string \<Rightarrow> string option" where
  "first_tagged_line block = find (prefix ''[HAS_ERROR]'') (splitlines block)"

definition error_verdict :: "(string \<Rightarrow> string) \<Rightarrow> string \<Rightarrow> bool \<Rightarrow> bool" where
  "error_verdict lower block has_error =
     (case first_tagged_line block of
        None \<Rightarrow> False
      | Some l \<Rightarrow> spec_flag lower l = has_error)"

text \<open>
  The spec's words for the keyword filter: the keyword occurs in the block as a substring,
  up to case: some stretch of the block has the same lower-case form as the keyword.
\<close>

definition ci_substring :: "('c list \<Rightarrow> 'c list) \<Rightarrow> 'c list \<Rightarrow> 'c list \<Rightarrow> bool" where
  "ci_substring lower k block = (\<exists>p m s. block = p @ m @ s \<and> lower m = lower k)"

text \<open>What the code compares instead: the lower-case keyword is a substring of the
  lower-case block.\<close>

definition lower_substring :: "('c list \<Rightarrow> 'c list) \<Rightarrow> 'c list \<Rightarrow> 'c list \<Rightarrow> bool" where
  "lower_substring lower k block = (\<exists>p s. lower block = p @ lower k @ s)"

definition keyword_list :: "'c keyword_arg \<Rightarrow> 'c list list" where
  "keyword_list kw = (case kw of KwStr k \<Rightarrow> [k] | KwList ks \<Rightarrow> ks)"

text \<open>
  A block that makes \<open>filter_by_cell_index\<close> raise: its first line starts with \<open>[CELL\<close>,
  and the index expression of the source fails on it.
\<close>

definition bad_header :: "string \<Rightarrow> bool" where
  "bad_header block =
     (prefix ''[CELL'' (first_line block) \<and> isl (header_index (first_line block)))"

section \<open>Example cells\<close>

definition markdown_cell :: "string \<Rightarrow> cell" where
  "markdown_cell src =
     \<lparr>cell_type = ''markdown'', source = PyStr src, execution_count = None, outputs = []\<rparr>"

definition code_cell :: "string \<Rightarrow> int option \<Rightarrow> output_node list \<Rightarrow> cell" where
  "code_cell src ec outs =
     \<lparr>cell_type = ''code'', source = PyStr src, execution_count = ec, outputs = outs\<rparr>"

definition stream_output :: "string \<Rightarrow> output_node" where
  "stream_output t =
     \<lparr>output_type = ''stream'', text_field = PyStr t, data = None, ename = [],
      evalue = [], traceback = []\<rparr>"

definition error_output :: "string \<Rightarrow> string \<Rightarrow> string list \<Rightarrow> output_node" where
  "error_output en ev tb =
     \<lparr>output_type = ''error'', text_field = PyNone, data = None, ename = en,
      evalue = ev, traceback = tb\<rparr>"

text \<open>A code cell that prints a score, one that fails, and one that prints the tag of the
  error filter.\<close>

definition rmse_cell :: cell where
  "rmse_cell = code_cell ''evaluate(model)'' (Some 7) [stream_output ''RMSE: 0.25\<newline>'']"

definition failing_cell :: cell where
  "failing_cell =
     code_cell ''1 / 0'' (Some 2)
       [error_output ''ZeroDivisionError'' ''division by zero''
          [''Traceback (most recent call last)'']]"

definition echo_cell :: cell where
  "echo_cell = code_cell ''print(tag)'' (Some 1) [stream_output ''[HAS_ERROR] True\<newline>'']"

text \<open>The blocks rendered for ten markdown cells, at the indices 0 to 9.\<close>

definition ten_blocks :: "string list" where
  "ten_blocks = map (\<lambda>i. format_cell (markdown_cell ''note'') (int i)) [0..<10]"

text \<open>A file system with one notebook, and a rendering of exceptions as text.\<close>

definition example_read :: "string \<Rightarrow> exn + cell list" where
  "example_read p =
     (if p = ''nb.ipynb'' then Inr [markdown_cell ''# Model'', rmse_cell, failing_cell]
      else Inl (Raised ''No such file''))"

definition example_str_exc :: "exn \<Rightarrow> string" where
  "example_str_exc e =
     (case e of
        ValueError lit \<Rightarrow> ''invalid literal for int()''
      | IndexError \<Rightarrow> ''list index out of range''
      | Raised m \<Rightarrow> m)"

text \<open>
  A block with Greek text, as code points (natural numbers): the block of a markdown cell at
  index 0 whose source is the word of the six letters kappa, omicron, sigma, mu, omicron,
  sigma in capitals, and the keyword made of its first three letters. \<open>lower_greek\<close> is
  \<open>str.lower()\<close> on text made of ASCII characters and Greek letters in which no sigma
  stands next to a case-ignorable character: capitals move up by 32, except that a capital
  sigma (U+03A3) that follows a letter and is not followed by one becomes the final sigma
  (U+03C2).
\<close>

definition is_cased :: "nat \<Rightarrow> bool" where
  "is_cased c =
     ((65 \<le> c \<and> c \<le> 90) \<or> (97 \<le> c \<and> c \<le> 122) \<or>
      (0x391 \<le> c \<and> c \<le> 0x3A9 \<and> c \<noteq> 0x3A2) \<or> (0x3B1 \<le> c \<and> c \<le> 0x3C9))"

fun lower_greek_from :: "bool \<Rightarrow> nat list \<Rightarrow> nat list" where
  "lower_greek_from after_cased [] = []"
| "lower_greek_from after_cased (c # cs) =
     (if c = 0x3A3 then
        (if after_cased \<and> \<not> (cs \<noteq> [] \<and> is_cased (hd cs)) then 0x3C2 else 0x3C3)
      else if (65 \<le> c \<and> c \<le> 90) \<or> (0x391 \<le> c \<and> c \<le> 0x3A9 \<and> c \<noteq> 0x3A2) then c + 32
      else c) # lower_greek_from (is_cased c) cs"

definition lower_greek :: "nat list \<Rightarrow> nat list" where
  "lower_greek s = lower_greek_from False s"

definition kos :: "nat list" where
  "kos = [0x39A, 0x39F, 0x3A3]"

definition kosmos_block :: "nat list" where
  "kosmos_block =
     map of_char ''\<newline>[CELL 0 | MARKDOWN]\<newline>'' @
     [0x39A, 0x39F, 0x3A3, 0x39C, 0x39F, 0x3A3] @ map of_char ''\<newline>''"

section \<open>Lemmas on the Python primitives\<close>

lemma py_join_empty_sep: "py_join [] xs = concat xs"
proof (induction xs)
  case Nil
  show ?case by simp
next
  case (Cons x xs)
  then show ?case by (cases xs) simp_all
qed

lemma py_split_from_no_sep:
  "c \<notin> set a \<Longrightarrow> m \<noteq> Some 0 \<Longrightarrow> py_split_from [c] m cur a = [rev cur @ a]"
proof (induction a arbitrary: cur)
  case Nil
  then show ?case by (subst py_split_from.simps) simp
next
  case (Cons x a)
  then show ?case by (subst py_split_from.simps) simp
qed

lemma py_split_from_first_sep:
  "c \<notin> set a \<Longrightarrow> m \<noteq> Some 0 \<Longrightarrow>
   py_split_from [c] m cur (a @ c # rest) =
     (rev cur @ a) # py_split_from [c] (map_option (\<lambda>k. k - 1) m) [] rest"
proof (induction a arbitrary: cur)
  case Nil
  then show ?case by (subst py_split_from.simps) simp
next
  case (Cons x a)
  then show ?case by (subst py_split_from.simps) simp
qed

lemma py_split_from_zero: "py_split_from sep (Some 0) cur s = [rev cur @ s]"
  by (subst py_split_from.simps) simp

text \<open>\<open>s.split(c, 1)[0]\<close> is the text before the first \<open>c\<close>.\<close>

lemma py_split_max_one_first:
  "py_index (py_split_max s [c] 1) 0 = Inr (takeWhile (\<lambda>x. x \<noteq> c) s)"
proof (cases "c \<in> set s")
  case False
  have p: "py_split_from [c] (Some 1) [] s = [s]"
    using False py_split_from_no_sep [of c s "Some 1" "[]"] by simp
  have t: "takeWhile (\<lambda>x. x \<noteq> c) s = s"
    using False by (auto simp: takeWhile_eq_all_conv)
  show ?thesis unfolding py_split_max_def py_index_def p t by simp
next
  case True
  define a where "a = takeWhile (\<lambda>x. x \<noteq> c) s"
  define r where "r = dropWhile (\<lambda>x. x \<noteq> c) s"
  have "r \<noteq> []" using True by (simp add: r_def)
  moreover have "hd r = c" using True hd_dropWhile [of "\<lambda>x. x \<noteq> c" s] by (auto simp: r_def)
  ultimately obtain rest where r: "r = c # rest" by (cases r) auto
  have s: "s = a @ c # rest" using r by (metis a_def r_def takeWhile_dropWhile_id)
  have na: "c \<notin> set a" by (auto simp: a_def dest: set_takeWhileD)
  have "py_split_from [c] (Some 1) [] s = [a, rest]"
    using py_split_from_first_sep [OF na, of "Some 1" "[]" rest]
    by (simp add: s py_split_from_zero)
  then show ?thesis by (simp add: py_split_max_def py_index_def a_def)
qed

text \<open>\<open>s.split(c, 1)[1]\<close> is the text after the first \<open>c\<close>, when there is one.\<close>

lemma py_split_max_one_second:
  "c \<in> set s \<Longrightarrow>
   py_index (py_split_max s [c] 1) 1 = Inr (tl (dropWhile (\<lambda>x. x \<noteq> c) s))"
proof -
  assume True: "c \<in> set s"
  define a where "a = takeWhile (\<lambda>x. x \<noteq> c) s"
  define r where "r = dropWhile (\<lambda>x. x \<noteq> c) s"
  have "r \<noteq> []" using True by (simp add: r_def)
  moreover have "hd r = c" using True hd_dropWhile [of "\<lambda>x. x \<noteq> c" s] by (auto simp: r_def)
  ultimately obtain rest where r: "r = c # rest" by (cases r) auto
  have s: "s = a @ c # rest" using r by (metis a_def r_def takeWhile_dropWhile_id)
  have na: "c \<notin> set a" by (auto simp: a_def dest: set_takeWhileD)
  have "py_split_from [c] (Some 1) [] s = [a, rest]"
    using py_split_from_first_sep [OF na, of "Some 1" "[]" rest]
    by (simp add: s py_split_from_zero)
  then show ?thesis using r by (simp add: py_split_max_def py_index_def r_def)
qed

lemma py_split_from_not_Nil: "py_split_from sep m cur s \<noteq> []"
  by (induction sep m cur s rule: py_split_from.induct)
     (subst py_split_from.simps, simp split: list.splits)

lemma py_split_from_prefix_sep:
  assumes "sep \<noteq> []"
  shows "py_split_from sep None [] (sep @ rest) = [] # py_split_from sep None [] rest"
proof -
  obtain x xs where sep: "sep = x # xs" using assms by (cases sep) auto
  show ?thesis unfolding sep by (subst py_split_from.simps) simp
qed

lemma py_index_split_0: "\<exists>x. py_index (py_split s sep) 0 = Inr x"
  using py_split_from_not_Nil [of sep None "[]" s]
  by (simp add: py_index_def py_split_def)

lemma py_index_split_CELL:
  assumes "prefix ''[CELL'' h"
  shows "\<exists>x. py_index (py_split h ''[CELL'') 1 = Inr x"
proof -
  obtain rest where h: "h = ''[CELL'' @ rest" using assms by (auto simp: prefix_def)
  have "py_split h ''[CELL'' = [] # py_split_from ''[CELL'' None [] rest"
    unfolding py_split_def h by (rule py_split_from_prefix_sep) simp
  moreover have "py_split_from ''[CELL'' None [] rest \<noteq> []" by (rule py_split_from_not_Nil)
  ultimately show ?thesis by (simp add: py_index_def)
qed

lemma py_int_error: "py_int s = Inl x \<Longrightarrow> x = ValueError s"
  by (auto simp: py_int_def Let_def split: if_splits prod.splits)

lemma py_contains_iff: "py_contains k t \<longleftrightarrow> (\<exists>p s. t = p @ k @ s)"
proof (induction t)
  case Nil
  show ?case by auto
next
  case (Cons c cs)
  show ?case
  proof
    assume "py_contains k (c # cs)"
    then consider "prefix k (c # cs)" | "py_contains k cs" by auto
    then show "\<exists>p s. c # cs = p @ k @ s"
    proof cases
      case 1
      then obtain s where "c # cs = k @ s" by (auto simp: prefix_def)
      then have "c # cs = [] @ k @ s" by simp
      then show ?thesis by blast
    next
      case 2
      then obtain p s where "cs = p @ k @ s" using Cons.IH by blast
      then have "c # cs = (c # p) @ k @ s" by simp
      then show ?thesis by blast
    qed
  next
    assume "\<exists>p s. c # cs = p @ k @ s"
    then obtain p s where e: "c # cs = p @ k @ s" by blast
    show "py_contains k (c # cs)"
    proof (cases p)
      case Nil
      then have "prefix k (c # cs)" using e by (simp add: prefix_def)
      then show ?thesis by simp
    next
      case (Cons x p')
      then have "cs = p' @ k @ s" using e by simp
      then have "py_contains k cs" using Cons.IH by blast
      then show ?thesis by simp
    qed
  qed
qed

section \<open>Lemmas on the output renderer\<close>

lemma format_outputs_step_acc:
  "format_outputs_step (l, h) out =
     (l @ fst (format_outputs_step ([], False) out),
      h \<or> snd (format_outputs_step ([], False) out))"
  by (auto simp: format_outputs_step.simps Let_def split: option.splits)

lemma foldl_format_outputs_step_acc:
  "foldl format_outputs_step (l, h) outs =
     (l @ fst (foldl format_outputs_step ([], False) outs),
      h \<or> snd (foldl format_outputs_step ([], False) outs))"
proof (induction outs arbitrary: l h)
  case Nil
  show ?case by simp
next
  case (Cons out outs)
  obtain l1 h1 where s1: "format_outputs_step ([], False) out = (l1, h1)"
    by (cases "format_outputs_step ([], False) out")
  have s2: "format_outputs_step (l, h) out = (l @ l1, h \<or> h1)"
    using format_outputs_step_acc [of l h out] by (simp add: s1)
  show ?case
    using Cons.IH [of "l @ l1" "h \<or> h1"] Cons.IH [of l1 h1]
    by (simp add: s1 s2)
qed

lemma rendered_lines_append:
  "rendered_lines (xs @ ys) = rendered_lines xs @ rendered_lines ys"
proof -
  obtain l h where p: "foldl format_outputs_step ([], False) xs = (l, h)"
    by (cases "foldl format_outputs_step ([], False) xs")
  show ?thesis
    using foldl_format_outputs_step_acc [of l h ys]
    by (simp add: rendered_lines_def p)
qed

lemma error_step:
  "output_type out = ''error'' \<Longrightarrow>
   format_outputs_step ([], False) out =
     ([''ERROR:'', ename out @ '': '' @ evalue out] @ traceback out, True)"
  by (simp add: format_outputs_step.simps)

section \<open>The filters as list filters\<close>

lemma filter_by_keyword_loop_eq:
  "filter_by_keyword_loop lower bs kws r =
     r @ filter (\<lambda>b. list_ex (\<lambda>k. py_contains (lower k) (lower b)) kws) bs"
  by (induction bs arbitrary: r) (simp_all add: Let_def)

lemma lower_substring_iff: "lower_substring lower k b \<longleftrightarrow> py_contains (lower k) (lower b)"
  unfolding lower_substring_def py_contains_iff by (rule refl)

text \<open>Where lower-casing is character by character, the comparison of the code is the
  occurrence of the keyword up to case.\<close>

lemma ci_substring_iff:
  "ci_substring (map f) k b \<longleftrightarrow> py_contains (map f k) (map f b)"
proof
  assume "ci_substring (map f) k b"
  then obtain p m s where "b = p @ m @ s" "map f m = map f k"
    by (auto simp: ci_substring_def)
  then have "map f b = map f p @ map f k @ map f s"
    by simp
  then show "py_contains (map f k) (map f b)"
    unfolding py_contains_iff by blast
next
  assume "py_contains (map f k) (map f b)"
  then obtain p' s' where "map f b = p' @ map f k @ s'"
    unfolding py_contains_iff by blast
  then obtain p r where b1: "b = p @ r" and r1: "map f r = map f k @ s'"
    by (metis map_eq_append_conv)
  obtain m s where r2: "r = m @ s" and m1: "map f m = map f k"
    using r1 by (metis map_eq_append_conv)
  have "b = p @ m @ s" using b1 r2 by simp
  then show "ci_substring (map f) k b"
    using m1 unfolding ci_substring_def by blast
qed

lemma filter_by_keyword_eq:
  "filter_by_keyword lower bs kw =
     filter (\<lambda>b. \<exists>k\<in>set (keyword_list kw). lower_substring lower k b) bs"
  by (simp add: filter_by_keyword_def filter_by_keyword_loop_eq keyword_list_def
      list_ex_iff lower_substring_iff)

lemma filter_by_keyword_map_eq:
  "filter_by_keyword (map f) bs kw =
     filter (\<lambda>b. \<exists>k\<in>set (keyword_list kw). ci_substring (map f) k b) bs"
  by (simp add: filter_by_keyword_def filter_by_keyword_loop_eq keyword_list_def
      list_ex_iff ci_substring_iff)

lemma lower_latin1_map: "lower_latin1 = map lower_char"
  by (rule ext) (simp add: lower_latin1_def)

lemma filter_by_cell_index_loop_Cons:
  "filter_by_cell_index_loop (b # rest) s e r =
     (case index_verdict b s e of
        Inl x \<Rightarrow> Inl x
      | Inr k \<Rightarrow> filter_by_cell_index_loop rest s e (if k then r @ [b] else r))"
proof -
  have h: "py_index (py_split_max b ''\<newline>'' 1) 0 = Inr (first_line b)"
    unfolding first_line_def by (rule py_split_max_one_first)
  show ?thesis
    unfolding filter_by_cell_index_loop.simps h index_verdict_def
    by (auto split: sum.splits option.splits)
qed

lemma filter_by_cell_index_loop_eq:
  "filter_by_cell_index_loop bs s e r =
     (case find (\<lambda>b. isl (index_verdict b s e)) bs of
        Some b \<Rightarrow> Inl (projl (index_verdict b s e))
      | None \<Rightarrow> Inr (r @ filter (\<lambda>b. index_verdict b s e = Inr True) bs))"
proof (induction bs arbitrary: r)
  case Nil
  show ?case by simp
next
  case (Cons b bs)
  show ?case
    unfolding filter_by_cell_index_loop_Cons
    by (cases "index_verdict b s e") (auto simp: Cons.IH split: option.splits)
qed

lemma tag_has_bracket: "prefix ''[HAS_ERROR]'' l \<Longrightarrow> CHR '']'' \<in> set l"
  by (auto simp: prefix_def)

lemma has_error_scan_eq:
  "has_error_scan lower ls t =
     Inr (case find (prefix ''[HAS_ERROR]'') ls of None \<Rightarrow> False | Some l \<Rightarrow> spec_flag lower l = t)"
proof (induction ls)
  case Nil
  show ?case by simp
next
  case (Cons l ls)
  show ?case
  proof (cases "prefix ''[HAS_ERROR]'' l")
    case True
    then show ?thesis
      using py_split_max_one_second [OF tag_has_bracket [OF True]]
      by (simp add: spec_flag_def)
  next
    case False
    then show ?thesis using Cons.IH by simp
  qed
qed

lemma filter_has_error_loop_eq:
  "filter_has_error_loop lower bs t r = Inr (r @ filter (\<lambda>b. error_verdict lower b t) bs)"
  by (induction bs arbitrary: r)
     (simp_all add: has_error_scan_eq error_verdict_def first_tagged_line_def)

lemma filter_has_error_eq:
  "filter_has_error lower bs t = Inr (filter (\<lambda>b. error_verdict lower b t) bs)"
  by (simp add: filter_has_error_def filter_has_error_loop_eq)

lemma header_index_error:
  assumes "prefix ''[CELL'' h" and "header_index h = Inl x"
  shows "\<exists>lit. x = ValueError lit"
proof -
  obtain a where a: "py_index (py_split h ''[CELL'') 1 = Inr a"
    using py_index_split_CELL [OF assms(1)] by blast
  obtain b where b: "py_index (py_split a ''|'') 0 = Inr b"
    using py_index_split_0 by blast
  have "py_int (py_strip b) = Inl x"
    using assms(2) by (simp add: header_index_def a b del: One_nat_def)
  then show ?thesis using py_int_error by blast
qed

lemma index_verdict_error:
  "index_verdict b s e = Inl x \<Longrightarrow> bad_header b \<and> (\<exists>lit. x = ValueError lit)"
  by (auto simp: index_verdict_def bad_header_def header_index_error
      split: if_splits sum.splits)

lemma isl_index_verdict: "isl (index_verdict b s e) \<longleftrightarrow> bad_header b"
  by (auto simp: index_verdict_def bad_header_def split: sum.splits)

lemma find_None_filter: "find P xs = None \<Longrightarrow> find P (filter Q xs) = None"
  by (auto simp: find_None_iff)

lemma filter_by_cell_index_eq:
  "filter_by_cell_index bs s e =
     (case find bad_header bs of
        Some b \<Rightarrow> Inl (projl (index_verdict b s e))
      | None \<Rightarrow> Inr (filter (\<lambda>b. index_verdict b s e = Inr True) bs))"
  by (simp add: filter_by_cell_index_def filter_by_cell_index_loop_eq isl_index_verdict
      split: option.splits)

section \<open>Lemmas on rendered blocks\<close>

lemma digit_not_newline: "k < 10 \<Longrightarrow> ''0123456789'' ! k \<noteq> CHR 0x0A"
proof -
  assume "k < 10"
  then have "''0123456789'' ! k \<in> set ''0123456789''" by (intro nth_mem) simp
  then show ?thesis by auto
qed

lemma str_nat_no_newline: "CHR 0x0A \<notin> set (str_nat n)"
proof (induction n rule: str_nat.induct)
  case (1 n)
  show ?case
  proof (cases "n < 10")
    case True
    then show ?thesis
      using digit_not_newline [of n] by (subst str_nat.simps) auto
  next
    case False
    have "n mod 10 < 10" by simp
    then have "''0123456789'' ! (n mod 10) \<noteq> CHR 0x0A" by (rule digit_not_newline)
    then show ?thesis
      using False "1.IH" by (subst str_nat.simps) auto
  qed
qed

lemma str_int_no_newline: "CHR 0x0A \<notin> set (str_int i)"
  by (simp add: str_int_def str_nat_no_newline)

lemma str_opt_int_no_newline: "CHR 0x0A \<notin> set (str_opt_int x)"
  by (cases x) (simp_all add: str_opt_int_def str_int_no_newline)

lemma str_bool_no_newline: "CHR 0x0A \<notin> set (str_bool b)"
  by (simp add: str_bool_def)

lemma split_first_line:
  "CHR 0x0A \<notin> set a \<Longrightarrow>
   py_split_from ''\<newline>'' None [] (a @ CHR 0x0A # rest) = a # py_split_from ''\<newline>'' None [] rest"
  using py_split_from_first_sep [of "CHR 0x0A" a None "[]" rest] by simp

lemma split_leading_newline:
  "py_split_from ''\<newline>'' None [] (CHR 0x0A # rest) = [] # py_split_from ''\<newline>'' None [] rest"
  using split_first_line [of "[]" rest] by simp

lemma format_cell_markdown:
  "cell_type c = ''markdown'' \<Longrightarrow>
   format_cell c i =
     CHR 0x0A # (''[CELL '' @ str_int i @ '' | MARKDOWN]'') @ CHR 0x0A #
     (py_strip (normalize_text (source c)) @ ''\<newline>'')"
  by (simp add: format_cell_def)

lemma format_cell_code:
  "cell_type c = ''code'' \<Longrightarrow>
   format_cell c i =
     CHR 0x0A # (''[CELL '' @ str_int i @ '' | CODE]'') @ CHR 0x0A #
     (''[EXECUTION_COUNT] '' @ str_opt_int (execution_count c)) @ CHR 0x0A #
     (''[HAS_ERROR] '' @ str_bool (snd (format_outputs (outputs c)))) @ CHR 0x0A #
     (''\<newline>'' @ py_strip (normalize_text (source c)) @ ''\<newline>\<newline>[OUTPUT]\<newline>'' @
      (if fst (format_outputs (outputs c)) \<noteq> [] then fst (format_outputs (outputs c))
       else ''<NO OUTPUT>'') @ ''\<newline>'')"
  by (simp add: format_cell_def Let_def split: prod.splits)

lemma format_cell_other:
  "cell_type c \<noteq> ''markdown'' \<Longrightarrow> cell_type c \<noteq> ''code'' \<Longrightarrow> format_cell c i = []"
  by (simp add: format_cell_def)

lemma format_cell_starts_with_newline:
  "format_cell c i = [] \<or> (\<exists>rest. format_cell c i = CHR 0x0A # rest)"
proof (cases "cell_type c = ''markdown''")
  case True
  then show ?thesis using format_cell_markdown [OF True, of i] by simp
next
  case False
  show ?thesis
  proof (cases "cell_type c = ''code''")
    case True
    then show ?thesis using format_cell_code [OF True, of i] by simp
  next
    case False2: False
    then show ?thesis using False format_cell_other by simp
  qed
qed

lemma first_line_format_cell: "first_line (format_cell c i) = []"
  using format_cell_starts_with_newline [of c i] by (auto simp: first_line_def)

lemma index_verdict_format_cell: "index_verdict (format_cell c i) s e = Inr False"
  by (simp add: index_verdict_def first_line_format_cell)

lemma filter_by_cell_index_rendered:
  assumes "\<forall>b\<in>set blocks. \<exists>c i. b = format_cell c i"
  shows "filter_by_cell_index blocks s e = Inr []"
proof -
  have v: "\<forall>b\<in>set blocks. index_verdict b s e = Inr False"
    using assms index_verdict_format_cell by auto
  then have "find (\<lambda>b. isl (index_verdict b s e)) blocks = None"
    by (auto simp: find_None_iff)
  moreover have "filter (\<lambda>b. index_verdict b s e = Inr True) blocks = []"
    using v by (auto simp: filter_empty_conv)
  ultimately show ?thesis
    by (simp add: filter_by_cell_index_def filter_by_cell_index_loop_eq)
qed

lemma blocks_loop_set:
  "set (blocks_loop ics acc) \<subseteq> set acc \<union> {b. \<exists>c i. b = format_cell c i}"
proof (induction ics arbitrary: acc)
  case Nil
  show ?case by simp
next
  case (Cons ic ics)
  obtain i c where ic: "ic = (i, c)" by (cases ic)
  show ?case
  proof (cases "py_strip (format_cell c (int i)) \<noteq> []")
    case True
    then have e: "blocks_loop (ic # ics) acc = blocks_loop ics (acc @ [format_cell c (int i)])"
      by (simp add: ic Let_def)
    have "set (blocks_loop ics (acc @ [format_cell c (int i)])) \<subseteq>
          set (acc @ [format_cell c (int i)]) \<union> {b. \<exists>c i. b = format_cell c i}"
      by (rule Cons.IH)
    moreover have "set (acc @ [format_cell c (int i)]) \<subseteq>
          set acc \<union> {b. \<exists>c i. b = format_cell c i}"
      by auto
    ultimately show ?thesis unfolding e by blast
  next
    case False
    then have e: "blocks_loop (ic # ics) acc = blocks_loop ics acc"
      by (simp add: ic Let_def)
    show ?thesis unfolding e by (rule Cons.IH)
  qed
qed

lemma notebook_to_llm_blocks_rendered:
  assumes "notebook_to_llm_blocks nbformat_read path = Inr blocks"
  shows "\<forall>b\<in>set blocks. \<exists>c i. b = format_cell c i"
proof -
  obtain cells where "nbformat_read path = Inr cells"
    and b: "blocks = blocks_loop (enumerate 0 cells) []"
    using assms by (auto simp: notebook_to_llm_blocks_def split: sum.splits)
  show ?thesis
    using blocks_loop_set [of "enumerate 0 cells" "[]"] unfolding b by auto
qed

section \<open>The lines of a markdown block\<close>

lemma newline_is_linebreak: "is_linebreak (CHR 0x0A)"
  by (simp add: is_linebreak_def)

lemma linebreak_is_space: "is_linebreak c \<Longrightarrow> is_space c"
  by (auto simp: is_linebreak_def is_space_def)

lemma splitlines_from_line:
  "\<forall>x\<in>set a. \<not> is_linebreak x \<Longrightarrow>
   splitlines_from cur (a @ CHR 0x0A # rest) = (rev cur @ a) # splitlines_from [] rest"
  by (induction a arbitrary: cur) (simp_all add: newline_is_linebreak)

lemma splitlines_from_leading_newline:
  "splitlines_from cur (CHR 0x0A # rest) = rev cur # splitlines_from [] rest"
  by (simp add: newline_is_linebreak)

lemma splitlines_from_final_newline:
  "cur \<noteq> [] \<or> s \<noteq> [] \<Longrightarrow> \<not> is_linebreak (last (rev cur @ s)) \<Longrightarrow>
   splitlines_from cur (s @ [CHR 0x0A]) = splitlines_from cur s"
proof (induction cur s rule: splitlines_from.induct)
  case (1 cur)
  then show ?case by (simp add: newline_is_linebreak)
next
  case (2 cur c cs)
  show ?case
  proof (cases "is_linebreak c")
    case False
    then show ?thesis using 2 by simp
  next
    case True
    then have cs: "cs \<noteq> []" using "2.prems"(2) by auto
    define r where "r = (if c = CHR 0x0D \<and> prefix [CHR 0x0A] cs then tl cs else cs)"
    have r_ne: "r \<noteq> []"
    proof
      assume "r = []"
      then have "c = CHR 0x0D \<and> prefix [CHR 0x0A] cs \<and> tl cs = []"
        using cs by (auto simp: r_def split: if_splits)
      then have "cs = [CHR 0x0A]" by (cases cs) (auto simp: prefix_def)
      then show False using "2.prems"(2) by (simp add: newline_is_linebreak)
    qed
    have r_last: "last r = last (rev cur @ c # cs)"
      using cs r_ne by (cases cs) (auto simp: r_def split: if_splits)
    have r_app: "(if c = CHR 0x0D \<and> prefix [CHR 0x0A] (cs @ [CHR 0x0A])
                  then tl (cs @ [CHR 0x0A]) else cs @ [CHR 0x0A]) = r @ [CHR 0x0A]"
      using cs by (cases cs) (auto simp: r_def)
    have "splitlines_from [] (r @ [CHR 0x0A]) = splitlines_from [] r"
      using "2.IH"(1) [OF True] r_ne r_last "2.prems"(2)
      unfolding r_def [symmetric] by simp
    then show ?thesis using True r_app by (simp add: r_def)
  qed
qed

lemma last_py_strip: "py_strip s \<noteq> [] \<Longrightarrow> \<not> is_space (last (py_strip s))"
proof -
  assume n: "py_strip s \<noteq> []"
  define d where "d = dropWhile is_space (rev (dropWhile is_space s))"
  have dn: "d \<noteq> []" using n by (simp add: py_strip_def d_def)
  then have "\<not> is_space (hd d)" unfolding d_def by (rule hd_dropWhile)
  moreover have "last (py_strip s) = hd d"
    using dn by (simp add: py_strip_def d_def [symmetric] last_rev)
  ultimately show ?thesis by simp
qed

lemma splitlines_stripped_newline:
  "splitlines (py_strip s @ [CHR 0x0A]) =
     (if py_strip s = [] then [[]] else splitlines (py_strip s))"
proof (cases "py_strip s = []")
  case True
  then show ?thesis by (simp add: splitlines_def newline_is_linebreak)
next
  case False
  then have "\<not> is_linebreak (last (py_strip s))"
    using last_py_strip linebreak_is_space by blast
  then show ?thesis
    using False splitlines_from_final_newline [of "[]" "py_strip s"]
    by (simp add: splitlines_def)
qed

lemma digit_not_linebreak: "k < 10 \<Longrightarrow> \<not> is_linebreak (''0123456789'' ! k)"
proof -
  assume "k < 10"
  then have "''0123456789'' ! k \<in> set ''0123456789''" by (intro nth_mem) simp
  then show ?thesis by (auto simp: is_linebreak_def)
qed

lemma str_nat_no_linebreak: "\<forall>c\<in>set (str_nat n). \<not> is_linebreak c"
proof (induction n rule: str_nat.induct)
  case (1 n)
  show ?case
  proof (cases "n < 10")
    case True
    then show ?thesis
      using digit_not_linebreak [of n] by (subst str_nat.simps) simp
  next
    case False
    have "n mod 10 < 10" by simp
    then have "\<not> is_linebreak (''0123456789'' ! (n mod 10))" by (rule digit_not_linebreak)
    then show ?thesis
      using False "1.IH" by (subst str_nat.simps) simp
  qed
qed

lemma minus_not_linebreak: "\<not> is_linebreak (CHR ''-'')"
  by (simp add: is_linebreak_def)

lemma str_int_no_linebreak: "\<forall>c\<in>set (str_int i). \<not> is_linebreak c"
  by (simp add: str_int_def str_nat_no_linebreak minus_not_linebreak)

lemma markdown_header_no_linebreak:
  "\<forall>x\<in>set (''[CELL '' @ str_int i @ '' | MARKDOWN]''). \<not> is_linebreak x"
proof -
  have a: "\<forall>x\<in>set ''[CELL ''. \<not> is_linebreak x" by (simp add: is_linebreak_def)
  have b: "\<forall>x\<in>set '' | MARKDOWN]''. \<not> is_linebreak x" by (simp add: is_linebreak_def)
  have c: "\<forall>x\<in>set (str_int i). \<not> is_linebreak x" by (rule str_int_no_linebreak)
  show ?thesis using a b c by (simp only: set_append ball_Un)
qed

lemma markdown_header_no_tag:
  "\<not> prefix ''[HAS_ERROR]'' (''[CELL '' @ str_int i @ '' | MARKDOWN]'')"
  by simp

lemma first_tagged_line_markdown:
  assumes t: "cell_type c = ''markdown''"
  shows "first_tagged_line (format_cell c i) =
           find (prefix ''[HAS_ERROR]'') (splitlines (py_strip (normalize_text (source c))))"
proof -
  define src where "src = py_strip (normalize_text (source c))"
  define hdr where "hdr = ''[CELL '' @ str_int i @ '' | MARKDOWN]''"
  have f: "format_cell c i = CHR 0x0A # (hdr @ CHR 0x0A # (src @ [CHR 0x0A]))"
    using t by (simp add: format_cell_def src_def hdr_def)
  have h: "\<forall>x\<in>set hdr. \<not> is_linebreak x"
    unfolding hdr_def by (rule markdown_header_no_linebreak)
  have "splitlines (format_cell c i) = [] # hdr # splitlines (src @ [CHR 0x0A])"
    unfolding splitlines_def f
    by (simp only: splitlines_from_leading_newline splitlines_from_line [OF h] rev.simps
        append_Nil)
  moreover have "\<not> prefix ''[HAS_ERROR]'' hdr"
    unfolding hdr_def by (rule markdown_header_no_tag)
  moreover have "splitlines (src @ [CHR 0x0A]) = (if src = [] then [[]] else splitlines src)"
    unfolding src_def by (rule splitlines_stripped_newline)
  moreover have "splitlines [] = []" by (simp add: splitlines_def)
  ultimately show ?thesis
    by (simp add: first_tagged_line_def src_def [symmetric])
qed

section \<open>The claims\<close>

subsection \<open>The tool entry point\<close>

text \<open>
  C1. \<open>read_notebook\<close> never propagates an exception: for every input it returns a string,
  which is the blocks left by the filters joined by newlines when there is at least one,
  the sentence \<open>No matching cells found with the specified filters.\<close> when there is none,
  and \<open>Error reading notebook: \<close> followed by the message of the exception when a step
  raised; in particular when the notebook cannot be read.
\<close>

theorem read_notebook_three_forms:
  "read_notebook lower str_exc nbformat_read path kw start_cell end_cell only_errors =
     Inr (case read_notebook_blocks lower nbformat_read path kw start_cell end_cell only_errors of
            Inl e \<Rightarrow> ''Error reading notebook: '' @ str_exc e
          | Inr blocks \<Rightarrow>
              if blocks = [] then ''No matching cells found with the specified filters.''
              else py_join ''\<newline>'' blocks) \<and>
   (nbformat_read path = Inl x \<longrightarrow>
      read_notebook lower str_exc nbformat_read path kw start_cell end_cell only_errors =
        Inr (''Error reading notebook: '' @ str_exc x))"
  by (auto simp: read_notebook_def read_notebook_blocks_def notebook_to_llm_blocks_def
      split: sum.splits)

theorem read_notebook_three_forms_witness:
  "read_notebook lower_latin1 example_str_exc example_read ''nb.ipynb'' None None None (Some True) =
     Inr (py_join ''\<newline>'' [format_cell failing_cell 2]) \<and>
   read_notebook lower_latin1 example_str_exc example_read ''nb.ipynb'' (Some (KwList [''arima''])) None None
     None = Inr ''No matching cells found with the specified filters.'' \<and>
   read_notebook lower_latin1 example_str_exc example_read ''missing.ipynb'' None None None None =
     Inr ''Error reading notebook: No such file''"
proof -
  have a: "read_notebook_blocks lower_latin1 example_read ''nb.ipynb'' None None None (Some True) =
      Inr [format_cell failing_cell 2]"
    by code_simp
  have b: "read_notebook_blocks lower_latin1 example_read ''nb.ipynb'' (Some (KwList [''arima''])) None None
      None = Inr []"
    by code_simp
  have c: "example_read ''missing.ipynb'' = Inl (Raised ''No such file'')"
    by (simp add: example_read_def)
  have d: "example_str_exc (Raised ''No such file'') = ''No such file''"
    by (simp add: example_str_exc_def)
  have w1: "read_notebook lower_latin1 example_str_exc example_read ''nb.ipynb'' None None None (Some True) =
     Inr (py_join ''\<newline>'' [format_cell failing_cell 2])"
    using read_notebook_three_forms
        [of lower_latin1 example_str_exc example_read "''nb.ipynb''" None None None "Some True",
         THEN conjunct1]
    unfolding a by simp
  have w2: "read_notebook lower_latin1 example_str_exc example_read ''nb.ipynb'' (Some (KwList [''arima'']))
     None None None = Inr ''No matching cells found with the specified filters.''"
    using read_notebook_three_forms
        [of lower_latin1 example_str_exc example_read "''nb.ipynb''" "Some (KwList [''arima''])"
            None None
            None, THEN conjunct1]
    unfolding b by simp
  have w3: "read_notebook lower_latin1 example_str_exc example_read ''missing.ipynb'' None None None None =
     Inr ''Error reading notebook: No such file''"
    using read_notebook_three_forms
        [of lower_latin1 example_str_exc example_read "''missing.ipynb''" None None None None
            "Raised ''No such file''", THEN conjunct2]
    using c by (simp add: d)
  show ?thesis using w1 w2 w3 by blast
qed

subsection \<open>The lines of a rendered block\<close>

text \<open>
  C2, as amended. Every non-empty block returned by \<open>format_cell\<close> comes from a markdown
  or a code cell and starts with a newline: its first line is empty and its second line is
  exactly the header \<open>[CELL <index> | MARKDOWN]\<close> (for every markdown cell, whatever its
  source) or \<open>[CELL <index> | CODE]\<close>. For every code cell the third line is
  \<open>[EXECUTION_COUNT]\<close> followed by the execution count and the fourth is \<open>[HAS_ERROR]\<close>
  followed by the error flag, whatever the outputs are.
\<close>

theorem format_cell_lines:
  "(cell_type c = ''markdown'' \<longrightarrow>
      take 2 (py_split (format_cell c i) ''\<newline>'') =
        [[], ''[CELL '' @ str_int i @ '' | MARKDOWN]'']) \<and>
   (cell_type c = ''code'' \<longrightarrow>
      take 4 (py_split (format_cell c i) ''\<newline>'') =
        [[], ''[CELL '' @ str_int i @ '' | CODE]'',
         ''[EXECUTION_COUNT] '' @ str_opt_int (execution_count c),
         ''[HAS_ERROR] '' @ str_bool (snd (format_outputs (outputs c)))]) \<and>
   (format_cell c i \<noteq> [] \<longrightarrow> cell_type c = ''markdown'' \<or> cell_type c = ''code'')"
proof -
  have h1: "CHR 0x0A \<notin> set (''[CELL '' @ str_int i @ '' | MARKDOWN]'')"
    by (simp add: str_int_no_newline)
  have h2: "CHR 0x0A \<notin> set (''[CELL '' @ str_int i @ '' | CODE]'')"
    by (simp add: str_int_no_newline)
  have h3: "CHR 0x0A \<notin> set (''[EXECUTION_COUNT] '' @ str_opt_int (execution_count c))"
    by (simp add: str_opt_int_no_newline)
  have h4: "CHR 0x0A \<notin> set (''[HAS_ERROR] '' @ str_bool (snd (format_outputs (outputs c))))"
    by (simp add: str_bool_no_newline)
  have m: "cell_type c = ''markdown'' \<longrightarrow>
      take 2 (py_split (format_cell c i) ''\<newline>'') =
        [[], ''[CELL '' @ str_int i @ '' | MARKDOWN]'']"
  proof
    assume t: "cell_type c = ''markdown''"
    show "take 2 (py_split (format_cell c i) ''\<newline>'') =
        [[], ''[CELL '' @ str_int i @ '' | MARKDOWN]'']"
      by (simp only: py_split_def format_cell_markdown [OF t]
          split_leading_newline split_first_line [OF h1]) simp
  qed
  have k: "cell_type c = ''code'' \<longrightarrow>
      take 4 (py_split (format_cell c i) ''\<newline>'') =
        [[], ''[CELL '' @ str_int i @ '' | CODE]'',
         ''[EXECUTION_COUNT] '' @ str_opt_int (execution_count c),
         ''[HAS_ERROR] '' @ str_bool (snd (format_outputs (outputs c)))]"
  proof
    assume t: "cell_type c = ''code''"
    show "take 4 (py_split (format_cell c i) ''\<newline>'') =
        [[], ''[CELL '' @ str_int i @ '' | CODE]'',
         ''[EXECUTION_COUNT] '' @ str_opt_int (execution_count c),
         ''[HAS_ERROR] '' @ str_bool (snd (format_outputs (outputs c)))]"
      by (simp only: py_split_def format_cell_code [OF t]
          split_leading_newline split_first_line [OF h2] split_first_line [OF h3]
          split_first_line [OF h4]) simp
  qed
  have n: "format_cell c i \<noteq> [] \<longrightarrow> cell_type c = ''markdown'' \<or> cell_type c = ''code''"
    using format_cell_other by blast
  show ?thesis using m k n by blast
qed

theorem format_cell_lines_counterexample:
  "format_cell (markdown_cell ''note'') 0 = ''\<newline>[CELL 0 | MARKDOWN]\<newline>note\<newline>'' \<and>
   py_index (py_split (format_cell (markdown_cell ''note'') 0) ''\<newline>'') 0 = Inr [] \<and>
   py_index (py_split (format_cell (markdown_cell ''note'') 0) ''\<newline>'') 0 \<noteq>
     Inr ''[CELL 0 | MARKDOWN]'' \<and>
   py_index (py_split (format_cell failing_cell 0) ''\<newline>'') 1 = Inr ''[CELL 0 | CODE]'' \<and>
   \<not> prefix ''[EXECUTION_COUNT]'' ''[CELL 0 | CODE]''"
  by code_simp

theorem format_cell_lines_witness:
  "take 2 (py_split (format_cell (markdown_cell ''note'') 0) ''\<newline>'') =
     [[], ''[CELL 0 | MARKDOWN]''] \<and>
   take 4 (py_split (format_cell failing_cell 12) ''\<newline>'') =
     [[], ''[CELL 12 | CODE]'', ''[EXECUTION_COUNT] 2'', ''[HAS_ERROR] True'']"
proof -
  have m: "cell_type (markdown_cell ''note'') = ''markdown''" by (simp add: markdown_cell_def)
  have k: "cell_type failing_cell = ''code''" by (simp add: failing_cell_def code_cell_def)
  have i0: "str_int 0 = ''0''" by code_simp
  have i12: "str_int 12 = ''12''" by code_simp
  have ec: "str_opt_int (execution_count failing_cell) = ''2''" by code_simp
  have he: "str_bool (snd (format_outputs (outputs failing_cell))) = ''True''" by code_simp
  show ?thesis
    using format_cell_lines [of "markdown_cell ''note''" 0] format_cell_lines [of failing_cell 12]
    unfolding i0 i12 ec he using m k by simp
qed

subsection \<open>The index filter on rendered blocks\<close>

text \<open>
  C3. For the blocks rendered for the cell indices 0 to 9,
  \<open>filter_by_cell_index(blocks, start=2, end=5)\<close> is meant to return the blocks of the
  indices 2, 3 and 4. The code returns the empty list for these ten blocks, because each
  of them starts with a newline; on the same blocks without that first character it
  returns the three blocks, the end being exclusive and the start inclusive.
\<close>

theorem index_filter_loses_rendered_blocks:
  "length ten_blocks = 10 \<and>
   filter_by_cell_index ten_blocks (Some 2) (Some 5) = Inr [] \<and>
   filter_by_cell_index (map tl ten_blocks) (Some 2) (Some 5) =
     Inr [''[CELL 2 | MARKDOWN]\<newline>note\<newline>'', ''[CELL 3 | MARKDOWN]\<newline>note\<newline>'',
          ''[CELL 4 | MARKDOWN]\<newline>note\<newline>'']"
  by code_simp

subsection \<open>The error filter\<close>

text \<open>
  C4, as amended. \<open>filter_has_error\<close> keeps a block if and only if the first line of the
  block that begins with \<open>[HAS_ERROR]\<close> carries, after its first \<open>]\<close> and read without
  regard to case, the requested boolean; later lines with the tag are not read. A block
  with no such line is never kept, whatever the target. The block of a markdown cell has
  such a line exactly when the trimmed source of the cell has one.
\<close>

theorem filter_has_error_first_tag:
  "filter_has_error lower blocks t =
     Inr (filter (\<lambda>b. case first_tagged_line b of
                         None \<Rightarrow> False
                       | Some l \<Rightarrow> spec_flag lower l = t) blocks) \<and>
   (first_tagged_line b = None \<longrightarrow> filter_has_error lower [b] t = Inr []) \<and>
   (cell_type c = ''markdown'' \<longrightarrow>
      first_tagged_line (format_cell c i) =
        find (prefix ''[HAS_ERROR]'') (splitlines (py_strip (normalize_text (source c)))))"
  by (simp add: filter_has_error_eq error_verdict_def first_tagged_line_markdown)

theorem filter_has_error_first_tag_counterexample:
  "''[HAS_ERROR] True'' \<in> set (splitlines (format_cell echo_cell 0)) \<and>
   prefix ''[HAS_ERROR]'' ''[HAS_ERROR] True'' \<and>
   spec_flag lower_latin1 ''[HAS_ERROR] True'' = True \<and>
   filter_has_error lower_latin1 [format_cell echo_cell 0] True = Inr [] \<and>
   filter_has_error lower_latin1 [format_cell (markdown_cell ''[HAS_ERROR] true'') 0] True =
     Inr [format_cell (markdown_cell ''[HAS_ERROR] true'') 0]"
  by code_simp

theorem filter_has_error_first_tag_witness:
  "filter_has_error lower_latin1 [format_cell (markdown_cell ''# Model'') 0, format_cell failing_cell 2] True =
     Inr [format_cell failing_cell 2] \<and>
   filter_has_error lower_latin1 [format_cell (markdown_cell ''# Model'') 0, format_cell failing_cell 2] False =
     Inr [] \<and>
   filter_has_error lower_latin1 [format_cell (markdown_cell ''# Model'') 0] True = Inr [] \<and>
   first_tagged_line (format_cell (markdown_cell ''# Model'') 0) = None \<and>
   first_tagged_line (format_cell failing_cell 2) = Some ''[HAS_ERROR] True''"
proof -
  have s: "find (prefix ''[HAS_ERROR]'')
             (splitlines (py_strip (normalize_text (source (markdown_cell ''# Model''))))) = None"
    by code_simp
  have k: "cell_type (markdown_cell ''# Model'') = ''markdown''"
    by (simp add: markdown_cell_def)
  have m: "first_tagged_line (format_cell (markdown_cell ''# Model'') 0) = None"
    using filter_has_error_first_tag
        [of lower_latin1 "[]" True "[]" "markdown_cell ''# Model''" 0, THEN conjunct2,
        THEN conjunct2] k s
    by simp
  have f: "first_tagged_line (format_cell failing_cell 2) = Some ''[HAS_ERROR] True''"
    by code_simp
  have v: "spec_flag lower_latin1 ''[HAS_ERROR] True'' = True"
    by code_simp
  have a: "filter_has_error lower_latin1 [format_cell (markdown_cell ''# Model'') 0, format_cell failing_cell 2]
             True = Inr [format_cell failing_cell 2]"
    using filter_has_error_first_tag
        [of lower_latin1
            "[format_cell (markdown_cell ''# Model'') 0, format_cell failing_cell 2]" True "[]"
            "markdown_cell ''# Model''" 0, THEN conjunct1]
    by (simp add: m f v)
  have b: "filter_has_error lower_latin1 [format_cell (markdown_cell ''# Model'') 0, format_cell failing_cell 2]
             False = Inr []"
    using filter_has_error_first_tag
        [of lower_latin1
            "[format_cell (markdown_cell ''# Model'') 0, format_cell failing_cell 2]" False "[]"
            "markdown_cell ''# Model''" 0, THEN conjunct1]
    by (simp add: m f v)
  have c: "filter_has_error lower_latin1 [format_cell (markdown_cell ''# Model'') 0] True = Inr []"
    using filter_has_error_first_tag
        [of lower_latin1 "[]" True "format_cell (markdown_cell ''# Model'') 0"
            "markdown_cell ''# Model''" 0,
         THEN conjunct2, THEN conjunct1] m
    by simp
  show ?thesis using a b c m f by blast
qed

subsection \<open>The keyword filter\<close>

text \<open>
  C5, as amended. \<open>filter_by_keyword\<close>, given one keyword or a list of keywords, keeps a
  block if and only if, for at least one keyword, the lower-case form of the keyword is a
  substring of the lower-case form of the whole block (header, source and output). Where
  lower-casing works character by character, as on ASCII and Latin-1 text, this says that
  the keyword occurs in the block as a substring up to case: a block whose output holds
  \<open>RMSE\<close> is kept for the keyword \<open>rmse\<close>.
\<close>

theorem filter_by_keyword_keeps:
  "filter_by_keyword lower blocks kw =
     filter (\<lambda>b. \<exists>k\<in>set (keyword_list kw). lower_substring lower k b) blocks \<and>
   filter_by_keyword (map f) blocks kw =
     filter (\<lambda>b. \<exists>k\<in>set (keyword_list kw). ci_substring (map f) k b) blocks"
  by (rule conjI [OF filter_by_keyword_eq filter_by_keyword_map_eq])

theorem filter_by_keyword_keeps_counterexample:
  "kosmos_block = map of_char ''\<newline>[CELL 0 | MARKDOWN]\<newline>'' @ kos @ [0x39C, 0x39F, 0x3A3, 10] \<and>
   lower_greek kos = [0x3BA, 0x3BF, 0x3C2] \<and>
   lower_greek kosmos_block =
     map of_char ''\<newline>[cell 0 | markdown]\<newline>'' @ [0x3BA, 0x3BF, 0x3C3, 0x3BC, 0x3BF, 0x3C2, 10] \<and>
   filter_by_keyword lower_greek [kosmos_block] (KwStr kos) = []"
  by code_simp

theorem filter_by_keyword_keeps_witness:
  "filter_by_keyword lower_latin1
     [format_cell (markdown_cell ''# Model'') 0, format_cell rmse_cell 1] (KwStr ''rmse'') =
     [format_cell rmse_cell 1] \<and>
   lower_substring lower_latin1 ''rmse'' (format_cell rmse_cell 1) \<and>
   ci_substring lower_latin1 ''rmse'' (format_cell rmse_cell 1) \<and>
   \<not> ci_substring lower_latin1 ''rmse'' (format_cell (markdown_cell ''# Model'') 0)"
proof -
  have e: "filter_by_keyword lower_latin1
     [format_cell (markdown_cell ''# Model'') 0, format_cell rmse_cell 1] (KwStr ''rmse'') =
     [format_cell rmse_cell 1]"
    by code_simp
  have d: "format_cell (markdown_cell ''# Model'') 0 \<noteq> format_cell rmse_cell 1"
    by code_simp
  have a: "lower_substring lower_latin1 ''rmse'' (format_cell rmse_cell 1)"
    using filter_by_keyword_keeps
      [of lower_latin1 "[format_cell (markdown_cell ''# Model'') 0, format_cell rmse_cell 1]"
          "KwStr ''rmse''" lower_char, THEN conjunct1] d
    unfolding e by (simp add: keyword_list_def split: if_splits)
  have b: "ci_substring lower_latin1 ''rmse'' (format_cell rmse_cell 1) \<and>
       \<not> ci_substring lower_latin1 ''rmse'' (format_cell (markdown_cell ''# Model'') 0)"
    using filter_by_keyword_keeps
      [of lower_latin1 "[format_cell (markdown_cell ''# Model'') 0, format_cell rmse_cell 1]"
          "KwStr ''rmse''" lower_char, THEN conjunct2] d
    unfolding lower_latin1_map [symmetric] e by (simp add: keyword_list_def split: if_splits)
  show ?thesis using e a b by blast
qed

subsection \<open>Error records\<close>

text \<open>
  C6. An error record adds, after the lines of the records before it, the line \<open>ERROR:\<close>,
  the line \<open><ename>: <evalue>\<close> and then every traceback line as it is and in order, and
  sets the error flag. A list holding only the record \<open>ValueError\<close>, \<open>bad\<close>,
  \<open>["line1", "line2"]\<close> renders as \<open>"ERROR:\nValueError: bad\nline1\nline2"\<close> with the
  flag \<open>True\<close>.
\<close>

theorem format_outputs_error:
  assumes "output_type out = ''error''"
  shows "format_outputs (pre @ [out] @ post) =
           (py_join ''\<newline>'' (rendered_lines pre @
              [''ERROR:'', ename out @ '': '' @ evalue out] @ traceback out @
              rendered_lines post), True) \<and>
         (ename out = ''ValueError'' \<and> evalue out = ''bad'' \<and>
          traceback out = [''line1'', ''line2''] \<longrightarrow>
          format_outputs [out] = (''ERROR:\<newline>ValueError: bad\<newline>line1\<newline>line2'', True))"
proof -
  obtain l h where p: "foldl format_outputs_step ([], False) pre = (l, h)"
    by (cases "foldl format_outputs_step ([], False) pre")
  have l: "l = rendered_lines pre"
    by (simp add: rendered_lines_def p)
  have one: "format_outputs_step (l, h) out =
      (l @ [''ERROR:'', ename out @ '': '' @ evalue out] @ traceback out, True)"
    using assms by (simp add: format_outputs_step.simps)
  have all: "foldl format_outputs_step ([], False) (pre @ [out] @ post) =
      (l @ [''ERROR:'', ename out @ '': '' @ evalue out] @ traceback out @ rendered_lines post,
       True)"
    using foldl_format_outputs_step_acc
      [of "l @ [''ERROR:'', ename out @ '': '' @ evalue out] @ traceback out" True post]
    by (simp add: p one rendered_lines_def)
  have first: "format_outputs (pre @ [out] @ post) =
           (py_join ''\<newline>'' (rendered_lines pre @
              [''ERROR:'', ename out @ '': '' @ evalue out] @ traceback out @
              rendered_lines post), True)"
    unfolding format_outputs_def all l by simp
  have second: "ename out = ''ValueError'' \<and> evalue out = ''bad'' \<and>
          traceback out = [''line1'', ''line2''] \<longrightarrow>
          format_outputs [out] = (''ERROR:\<newline>ValueError: bad\<newline>line1\<newline>line2'', True)"
    using assms by (simp add: format_outputs_def format_outputs_step.simps)
  show ?thesis using first second by blast
qed

theorem format_outputs_error_witness:
  "format_outputs
     [\<lparr>output_type = ''error'', text_field = PyNone, data = None, ename = ''ValueError'',
       evalue = ''bad'', traceback = [''line1'', ''line2'']\<rparr>] =
     (''ERROR:\<newline>ValueError: bad\<newline>line1\<newline>line2'', True)"
  using format_outputs_error
    [of "\<lparr>output_type = ''error'', text_field = PyNone, data = None, ename = ''ValueError'',
          evalue = ''bad'', traceback = [''line1'', ''line2'']\<rparr>" "[]" "[]"]
  by (simp add: rendered_lines_def)

subsection \<open>Text normalisation\<close>

text \<open>
  C7. \<open>normalize_text\<close> is defined on every value of its domain: it gives the empty string
  for \<open>None\<close>, the string itself for a string, and the fragments concatenated in order,
  with nothing between them, for a list; so \<open>["a", "b", "c"]\<close> gives \<open>"abc"\<close>.
\<close>

theorem normalize_text_cases:
  "normalize_text PyNone = '''' \<and>
   normalize_text (PyStr s) = s \<and>
   normalize_text (PyList fs) = concat fs \<and>
   normalize_text (PyList [''a'', ''b'', ''c'']) = ''abc''"
  by (simp add: py_join_empty_sep)

theorem normalize_text_cases_witness:
  "normalize_text PyNone = '''' \<and>
   normalize_text (PyStr ''x = 1'') = ''x = 1'' \<and>
   normalize_text (PyList [''x = 1\<newline>'', ''y = 2'']) = ''x = 1\<newline>y = 2'' \<and>
   normalize_text (PyList [''a'', ''b'', ''c'']) = ''abc''"
  using normalize_text_cases [of "''x = 1''" "[''x = 1\<newline>'', ''y = 2'']"] by simp

subsection \<open>Filters return subsequences\<close>

text \<open>
  C8. Each of the three filters returns a subsequence of its input: the blocks it keeps,
  in their order and no more often than in the input. \<open>filter_by_keyword\<close> and
  \<open>filter_has_error\<close> do so for every list of strings and every argument;
  \<open>filter_by_cell_index\<close> does so for every list of blocks rendered by \<open>format_cell\<close> and
  every \<open>start\<close> and \<open>end\<close>. On a list of other strings \<open>filter_by_cell_index\<close> returns a
  subsequence or raises a \<open>ValueError\<close>.
\<close>

theorem filters_subsequence:
  "subseq (filter_by_keyword lower blocks kw) blocks \<and>
   (\<exists>r. filter_has_error lower blocks t = Inr r \<and> subseq r blocks) \<and>
   ((\<forall>b\<in>set blocks. \<exists>c i. b = format_cell c i) \<longrightarrow>
      (\<exists>r. filter_by_cell_index blocks start end' = Inr r \<and> subseq r blocks)) \<and>
   (case filter_by_cell_index blocks start end' of
      Inr r \<Rightarrow> subseq r blocks
    | Inl x \<Rightarrow> \<exists>lit. x = ValueError lit)"
proof -
  have k: "subseq (filter_by_keyword lower blocks kw) blocks"
    by (simp add: filter_by_keyword_eq)
  have h: "\<exists>r. filter_has_error lower blocks t = Inr r \<and> subseq r blocks"
    by (simp add: filter_has_error_eq)
  have r: "(\<forall>b\<in>set blocks. \<exists>c i. b = format_cell c i) \<longrightarrow>
      (\<exists>r. filter_by_cell_index blocks start end' = Inr r \<and> subseq r blocks)"
    using filter_by_cell_index_rendered by fastforce
  have i: "case filter_by_cell_index blocks start end' of
      Inr r \<Rightarrow> subseq r blocks
    | Inl x \<Rightarrow> \<exists>lit. x = ValueError lit"
  proof (cases "find bad_header blocks")
    case None
    then show ?thesis by (simp add: filter_by_cell_index_eq)
  next
    case (Some b)
    then have bb: "bad_header b"
      by (auto simp: find_Some_iff)
    obtain x where x: "index_verdict b start end' = Inl x"
      using bb isl_index_verdict [of b start end'] by (cases "index_verdict b start end'") auto
    then obtain lit where "x = ValueError lit" using index_verdict_error by blast
    then show ?thesis using Some x by (simp add: filter_by_cell_index_eq)
  qed
  show ?thesis using k h r i by blast
qed

theorem filters_subsequence_witness:
  "subseq (filter_by_keyword lower_latin1 ten_blocks (KwStr ''cell 3'')) ten_blocks \<and>
   length (filter_by_keyword lower_latin1 ten_blocks (KwStr ''cell 3'')) = 1 \<and>
   filter_has_error lower_latin1 [format_cell rmse_cell 1, format_cell failing_cell 2] True =
     Inr [format_cell failing_cell 2] \<and>
   subseq [format_cell failing_cell 2] [format_cell rmse_cell 1, format_cell failing_cell 2] \<and>
   (\<exists>r. filter_by_cell_index ten_blocks (Some 2) None = Inr r \<and> subseq r ten_blocks) \<and>
   filter_by_cell_index (map tl ten_blocks) (Some 8) None =
     Inr [''[CELL 8 | MARKDOWN]\<newline>note\<newline>'', ''[CELL 9 | MARKDOWN]\<newline>note\<newline>''] \<and>
   subseq [''[CELL 8 | MARKDOWN]\<newline>note\<newline>'', ''[CELL 9 | MARKDOWN]\<newline>note\<newline>'']
     (map tl ten_blocks)"
proof -
  have n: "length (filter_by_keyword lower_latin1 ten_blocks (KwStr ''cell 3'')) = 1"
    by code_simp
  have e: "filter_has_error lower_latin1 [format_cell rmse_cell 1, format_cell failing_cell 2]
      True = Inr [format_cell failing_cell 2]"
    by code_simp
  have g: "filter_by_cell_index (map tl ten_blocks) (Some 8) None =
     Inr [''[CELL 8 | MARKDOWN]\<newline>note\<newline>'', ''[CELL 9 | MARKDOWN]\<newline>note\<newline>'']"
    by code_simp
  have rendered: "\<forall>b\<in>set ten_blocks. \<exists>c i. b = format_cell c i"
    by (auto simp: ten_blocks_def)
  have a: "subseq (filter_by_keyword lower_latin1 ten_blocks (KwStr ''cell 3'')) ten_blocks"
    using filters_subsequence [of lower_latin1 ten_blocks "KwStr ''cell 3''" True None None]
    by blast
  have b: "subseq [format_cell failing_cell 2] [format_cell rmse_cell 1, format_cell failing_cell 2]"
    using filters_subsequence
      [of lower_latin1 "[format_cell rmse_cell 1, format_cell failing_cell 2]" "KwStr []" True
          None None]
    unfolding e by simp
  have c: "\<exists>r. filter_by_cell_index ten_blocks (Some 2) None = Inr r \<and> subseq r ten_blocks"
    using filters_subsequence [of lower_latin1 ten_blocks "KwStr []" True "Some 2" None] rendered
    by blast
  have d: "subseq [''[CELL 8 | MARKDOWN]\<newline>note\<newline>'', ''[CELL 9 | MARKDOWN]\<newline>note\<newline>'']
     (map tl ten_blocks)"
    using filters_subsequence [of lower_latin1 "map tl ten_blocks" "KwStr []" True "Some 8" None]
    unfolding g by simp
  show ?thesis using n e g a b c d by blast
qed

subsection \<open>Filters are idempotent\<close>

text \<open>
  C9. Each of the three filters is idempotent: applied a second time with the same
  arguments, to its own result, it gives the same result as applied once. (Where the
  index filter raises, the second application is never reached and the result is the
  same exception.)
\<close>

theorem filters_idempotent:
  "filter_by_keyword lower (filter_by_keyword lower blocks kw) kw = filter_by_keyword lower blocks kw \<and>
   (case filter_by_cell_index blocks start end' of
      Inl x \<Rightarrow> Inl x
    | Inr r \<Rightarrow> filter_by_cell_index r start end') = filter_by_cell_index blocks start end' \<and>
   (case filter_has_error lower blocks t of
      Inl x \<Rightarrow> Inl x
    | Inr r \<Rightarrow> filter_has_error lower r t) = filter_has_error lower blocks t"
proof -
  have k: "filter_by_keyword lower (filter_by_keyword lower blocks kw) kw = filter_by_keyword lower blocks kw"
    by (simp add: filter_by_keyword_eq)
  have i: "(case filter_by_cell_index blocks start end' of
      Inl x \<Rightarrow> Inl x
    | Inr r \<Rightarrow> filter_by_cell_index r start end') = filter_by_cell_index blocks start end'"
  proof (cases "find bad_header blocks")
    case None
    then show ?thesis
      using find_None_filter [OF None]
      by (simp add: filter_by_cell_index_eq)
  next
    case (Some b)
    then show ?thesis by (simp add: filter_by_cell_index_eq)
  qed
  have h: "(case filter_has_error lower blocks t of
      Inl x \<Rightarrow> Inl x
    | Inr r \<Rightarrow> filter_has_error lower r t) = filter_has_error lower blocks t"
    by (simp add: filter_has_error_eq)
  show ?thesis using k i h by blast
qed

theorem filters_idempotent_witness:
  "filter_by_keyword lower_latin1 (filter_by_keyword lower_latin1 ten_blocks (KwList [''cell 3'', ''CELL 7''])) 
      (KwList [''cell 3'', ''CELL 7'']) = filter_by_keyword lower_latin1 ten_blocks (KwList [''cell 3'', ''CELL 7'']) \<and>
   length (filter_by_keyword lower_latin1 ten_blocks (KwList [''cell 3'', ''CELL 7''])) = 2 \<and>
   filter_by_cell_index [''[CELL 0 | MARKDOWN]\<newline>a'', ''[CELL 1 | CODE]\<newline>b''] (Some 1) None = Inr [''[CELL 1 | CODE]\<newline>b''] \<and>
   filter_by_cell_index [''[CELL 1 | CODE]\<newline>b''] (Some 1) None = Inr [''[CELL 1 | CODE]\<newline>b''] \<and>
   filter_has_error lower_latin1 [format_cell rmse_cell 1, format_cell failing_cell 2] True =
     Inr [format_cell failing_cell 2] \<and>
   filter_has_error lower_latin1 [format_cell failing_cell 2] True = Inr [format_cell failing_cell 2]"
proof -
  have k: "length (filter_by_keyword lower_latin1 ten_blocks (KwList [''cell 3'', ''CELL 7''])) = 2"
    by code_simp
  have i: "filter_by_cell_index [''[CELL 0 | MARKDOWN]\<newline>a'', ''[CELL 1 | CODE]\<newline>b''] (Some 1) None = Inr [''[CELL 1 | CODE]\<newline>b'']"
    by code_simp
  have h: "filter_has_error lower_latin1 [format_cell rmse_cell 1, format_cell failing_cell 2] True =
     Inr [format_cell failing_cell 2]"
    by code_simp
  show ?thesis
    using filters_idempotent
        [of lower_latin1 ten_blocks "KwList [''cell 3'', ''CELL 7'']" None None True]
      filters_idempotent
        [of lower_latin1 "[''[CELL 0 | MARKDOWN]\<newline>a'', ''[CELL 1 | CODE]\<newline>b'']"
        "KwStr []" "Some 1" None True]
      filters_idempotent
        [of lower_latin1 "[format_cell rmse_cell 1, format_cell failing_cell 2]"
        "KwStr []" None None True]
    unfolding i h using k by simp
qed

subsection \<open>Rendered blocks start with a newline\<close>

text \<open>
  C10. Every non-empty string returned by \<open>format_cell\<close> begins with a newline, so the
  text before its first newline, which \<open>filter_by_cell_index\<close> takes for the header, is
  empty. Hence for every list of blocks produced by \<open>format_cell\<close>, and so for the list
  \<open>notebook_to_llm_blocks\<close> returns, \<open>filter_by_cell_index\<close> returns the empty list for
  every \<open>start\<close> and \<open>end\<close>.
\<close>

theorem rendered_blocks_defeat_index_filter:
  "(format_cell c i \<noteq> [] \<longrightarrow>
      hd (format_cell c i) = CHR 0x0A \<and>
      py_index (py_split_max (format_cell c i) ''\<newline>'' 1) 0 = Inr []) \<and>
   ((\<forall>b\<in>set blocks. \<exists>c i. b = format_cell c i) \<longrightarrow>
      filter_by_cell_index blocks start end' = Inr []) \<and>
   (notebook_to_llm_blocks nbformat_read path = Inr blocks' \<longrightarrow>
      filter_by_cell_index blocks' start end' = Inr [])"
proof -
  have a: "format_cell c i \<noteq> [] \<longrightarrow>
      hd (format_cell c i) = CHR 0x0A \<and>
      py_index (py_split_max (format_cell c i) ''\<newline>'' 1) 0 = Inr []"
    using format_cell_starts_with_newline [of c i] first_line_format_cell [of c i]
    unfolding py_split_max_one_first by (auto simp: first_line_def)
  have b: "(\<forall>b\<in>set blocks. \<exists>c i. b = format_cell c i) \<longrightarrow>
      filter_by_cell_index blocks start end' = Inr []"
    using filter_by_cell_index_rendered by blast
  have c: "notebook_to_llm_blocks nbformat_read path = Inr blocks' \<longrightarrow>
      filter_by_cell_index blocks' start end' = Inr []"
    using filter_by_cell_index_rendered notebook_to_llm_blocks_rendered by blast
  show ?thesis using a b c by blast
qed

theorem rendered_blocks_defeat_index_filter_witness:
  "hd (format_cell rmse_cell 1) = CHR 0x0A \<and>
   py_index (py_split_max (format_cell rmse_cell 1) ''\<newline>'' 1) 0 = Inr [] \<and>
   filter_by_cell_index [format_cell (markdown_cell ''# Model'') 0, format_cell rmse_cell 1]
     (Some 0) (Some 2) = Inr [] \<and>
   notebook_to_llm_blocks example_read ''nb.ipynb'' =
     Inr [format_cell (markdown_cell ''# Model'') 0, format_cell rmse_cell 1,
          format_cell failing_cell 2] \<and>
   filter_by_cell_index [format_cell (markdown_cell ''# Model'') 0, format_cell rmse_cell 1,
          format_cell failing_cell 2] None (Some 3) = Inr []"
proof -
  have n: "format_cell rmse_cell 1 \<noteq> []" by code_simp
  have r: "\<forall>b\<in>set [format_cell (markdown_cell ''# Model'') 0, format_cell rmse_cell 1].
             \<exists>c i. b = format_cell c i"
    by auto
  have l: "notebook_to_llm_blocks example_read ''nb.ipynb'' =
     Inr [format_cell (markdown_cell ''# Model'') 0, format_cell rmse_cell 1,
          format_cell failing_cell 2]"
    by code_simp
  show ?thesis
    using rendered_blocks_defeat_index_filter
      [of rmse_cell 1 "[format_cell (markdown_cell ''# Model'') 0, format_cell rmse_cell 1]"
          "Some 0" "Some 2" example_read "''nb.ipynb''"
          "[format_cell (markdown_cell ''# Model'') 0, format_cell rmse_cell 1,
            format_cell failing_cell 2]"]
      rendered_blocks_defeat_index_filter
      [of rmse_cell 1 "[]" None "Some 3" example_read "''nb.ipynb''"
          "[format_cell (markdown_cell ''# Model'') 0, format_cell rmse_cell 1,
            format_cell failing_cell 2]"]
      n r l
    by simp
qed

end
